theory Spec2Isabelle
  imports Main
begin

section \<open>Values, completions and parse functions\<close>

text \<open>
  The parse functions take an \<^verbatim>\<open>unknown\<close> input. The fragment of JavaScript values
  modelled here is: \<^verbatim>\<open>undefined\<close>, \<^verbatim>\<open>null\<close>, booleans, strings, symbols (with their
  description), plain objects (the own properties with string keys, in insertion
  order) and error objects (their \<^verbatim>\<open>name\<close> and \<^verbatim>\<open>message\<close>). Any of them may be
  returned by a parse function and any of them may be thrown. Numbers, arrays and
  functions as values are left out; no operation of the parser looks into a value.
\<close>

datatype jsval =
    JUndefined
  | JNull
  | JBool bool
  | JStr string
  | JSymbol string
  | JObject "(string \<times> jsval) list"
  | JError string string

text \<open>
  What a function finds in \<^verbatim>\<open>this\<close> depends on how it is called. A plain call
  \<^verbatim>\<open>f(input)\<close> passes no receiver. A member call \<^verbatim>\<open>versions[i](input)\<close> passes the
  object the function was read from, here the array of versions. A caller may also
  call a routine as a member of any object of its own.
\<close>

datatype receiver =
    No_receiver
  | Versions_array
  | Other_receiver jsval

text \<open>
  A call either returns a value (\<open>Inr\<close>) or throws one (\<open>Inl\<close>).

  \<^verbatim>\<open>export type ParseFn<T = unknown> = (input: unknown) => T;\<close>

  A parse function is supplied by the caller and may do anything: its completion may
  depend on the receiver as well as on the input, and it may read and change the rest
  of the program's state, the \<open>'w\<close> below. It is assumed to terminate, and not to write
  to the array the parser was created with.
\<close>

type_synonym 'w ParseFn = "receiver \<Rightarrow> jsval \<Rightarrow> 'w \<Rightarrow> (jsval + jsval) \<times> 'w"

text \<open>
  The store: the array \<^verbatim>\<open>versions\<close> that the four closures of
  \<^verbatim>\<open>createVersionedParser\<close> capture (by reference, it is not copied), and the rest
  of the world.
\<close>

record 'w store =
  versions :: "'w ParseFn list"
  world :: 'w

section \<open>The host language\<close>

text \<open>
  The conversion to a string that a template literal applies to an interpolated
  value. It throws a \<^verbatim>\<open>TypeError\<close> on a symbol. A plain object prints as
  \<^verbatim>\<open>[object Object]\<close> through \<^verbatim>\<open>Object.prototype.toString\<close>, unless an own property
  \<^verbatim>\<open>toString\<close> shadows that method: none of the values here can be called, so the
  conversion then finds no primitive and throws a \<^verbatim>\<open>TypeError\<close>. An error object
  prints through \<^verbatim>\<open>Error.prototype.toString\<close>. The texts of the \<^verbatim>\<open>TypeError\<close>
  messages are the ones V8 gives; nothing below depends on them.
\<close>

fun ToString :: "jsval \<Rightarrow> jsval + string" where
  "ToString JUndefined = Inr ''undefined''"
| "ToString JNull = Inr ''null''"
| "ToString (JBool b) = Inr (if b then ''true'' else ''false'')"
| "ToString (JStr str) = Inr str"
| "ToString (JSymbol description) =
     Inl (JError ''TypeError'' ''Cannot convert a Symbol value to a string'')"
| "ToString (JObject properties) =
     (if ''toString'' \<in> set (map fst properties)
      then Inl (JError ''TypeError'' ''Cannot convert object to primitive value'')
      else Inr ''[object Object]'')"
| "ToString (JError name message) =
     Inr (if name = [] then message
          else if message = [] then name
          else name @ '': '' @ message)"

text \<open>
  Reading \<^verbatim>\<open>xs[i]\<close>: the element, or \<^verbatim>\<open>undefined\<close> (\<open>None\<close>) when \<open>i\<close> is not an
  index of the array.
\<close>

definition element :: "'a list \<Rightarrow> int \<Rightarrow> 'a option" where
  "element xs i = (if 0 \<le> i \<and> i < int (length xs) then Some (xs ! nat i) else None)"

text \<open>
  Calling a function \<open>f\<close> on \<open>input\<close> with a given receiver: its effect on the world
  is kept.
\<close>

definition call_as ::
  "receiver \<Rightarrow> 'w ParseFn \<Rightarrow> jsval \<Rightarrow> 'w store \<Rightarrow> (jsval + jsval) \<times> 'w store" where
  "call_as thisArg f input s =
     (case f thisArg input (world s) of (r, w) \<Rightarrow> (r, s\<lparr>world := w\<rparr>))"

text \<open>The plain call \<^verbatim>\<open>f(input)\<close>.\<close>

definition call :: "'w ParseFn \<Rightarrow> jsval \<Rightarrow> 'w store \<Rightarrow> (jsval + jsval) \<times> 'w store" where
  "call f input s = call_as No_receiver f input s"

text \<open>
  The member call \<^verbatim>\<open>versions[i](input)\<close> of what was read from the array: the
  routine is called with the array as its receiver; calling \<^verbatim>\<open>undefined\<close> throws a
  \<^verbatim>\<open>TypeError\<close> and nothing else happens. \<open>callee\<close> is the text of the expression
  called, which the message quotes.
\<close>

definition not_a_function :: "string \<Rightarrow> jsval" where
  "not_a_function callee = JError ''TypeError'' (callee @ '' is not a function'')"

definition call_element ::
  "string \<Rightarrow> 'w ParseFn option \<Rightarrow> jsval \<Rightarrow> 'w store \<Rightarrow> (jsval + jsval) \<times> 'w store" where
  "call_element callee f input s =
     (case f of
        None \<Rightarrow> (Inl (not_a_function callee), s)
      | Some g \<Rightarrow> call_as Versions_array g input s)"

section \<open>The versioned parser\<close>

text \<open>
  \<^verbatim>\<open>createVersionedParser(versions)\<close> captures the array and returns the four
  closures; nothing is called and nothing is checked.
\<close>

definition createVersionedParser :: "'w ParseFn list \<Rightarrow> 'w \<Rightarrow> 'w store" where
  "createVersionedParser vs w = \<lparr>versions = vs, world = w\<rparr>"

text \<open>\<^verbatim>\<open>return versions[0](input)\<close>\<close>

definition parseLatest :: "jsval \<Rightarrow> 'w store \<Rightarrow> (jsval + jsval) \<times> 'w store" where
  "parseLatest input s = call_element ''versions[0]'' (element (versions s) 0) input s"

text \<open>
  The loop of \<^verbatim>\<open>parseAny\<close>:
  \<^verbatim>\<open>
  for (const version of versions) {
    try { const parsed = version(input); return parsed; }
    catch (e) { continue; }
  }
  \<close>
  \<open>Some parsed\<close> is the \<^verbatim>\<open>return\<close> inside the loop, \<open>None\<close> is the loop running to
  its end. \<^verbatim>\<open>version(input)\<close> is a plain call.
\<close>

fun scan_versions :: "'w ParseFn list \<Rightarrow> jsval \<Rightarrow> 'w store \<Rightarrow> jsval option \<times> 'w store" where
  "scan_versions [] input s = (None, s)"
| "scan_versions (version # rest) input s =
     (case call version input s of
        (Inr parsed, s') \<Rightarrow> (Some parsed, s')
      | (Inl e, s') \<Rightarrow> scan_versions rest input s')"

text \<open>
  What the statement after the loop throws:
  \<^verbatim>\<open>throw new Error(`Failed to parse metadata (no version matched): ${input}`)\<close>.
  The template is evaluated first, so when the conversion of \<open>input\<close> throws, that
  is what is thrown.
\<close>

definition no_version_matched :: "jsval \<Rightarrow> jsval" where
  "no_version_matched input =
     (case ToString input of
        Inl e \<Rightarrow> e
      | Inr str \<Rightarrow> JError ''Error'' (''Failed to parse metadata (no version matched): '' @ str))"

definition parseAny :: "jsval \<Rightarrow> 'w store \<Rightarrow> (jsval + jsval) \<times> 'w store" where
  "parseAny input s =
     (case scan_versions (versions s) input s of
        (Some parsed, s') \<Rightarrow> (Inr parsed, s')
      | (None, s') \<Rightarrow> (Inl (no_version_matched input), s'))"

text \<open>\<^verbatim>\<open>return versions[versionIndex](input)\<close>\<close>

definition parseSpecific :: "int \<Rightarrow> jsval \<Rightarrow> 'w store \<Rightarrow> (jsval + jsval) \<times> 'w store" where
  "parseSpecific versionIndex input s =
     call_element ''versions[versionIndex]'' (element (versions s) versionIndex) input s"

text \<open>\<^verbatim>\<open>return versions\<close>\<close>

definition getAllParseFns :: "'w store \<Rightarrow> 'w ParseFn list \<times> 'w store" where
  "getAllParseFns s = (versions s, s)"

section \<open>The types of the indices\<close>

text \<open>
  A type of indices is taken as the set of the numbers that inhabit it: \<^verbatim>\<open>number\<close> is
  all of them, a literal type is a singleton, a union is a union, \<^verbatim>\<open>Exclude\<close> is the
  difference, and \<^verbatim>\<open>T extends U\<close> is inclusion.
\<close>

definition number :: "int set" where
  "number = UNIV"

text \<open>
  \<^verbatim>\<open>
  type Enumerate<N extends number, Acc extends number[] = []> = Acc['length'] extends N
    ? Acc[number]
    : Enumerate<N, [...Acc, Acc['length']]>
  \<close>
  for a literal \<open>N\<close>. From an accumulator longer than \<open>N\<close> the recursion would not end,
  which the compiler refuses (\<open>None\<close>).
\<close>

function Enumerate :: "nat \<Rightarrow> int list \<Rightarrow> int set option" where
  "Enumerate N Acc =
     (if length Acc = N then Some (set Acc)
      else if N < length Acc then None
      else Enumerate N (Acc @ [int (length Acc)]))"
  by pat_completeness auto
termination
  by (relation "measure (\<lambda>(N, Acc). N - length Acc)") auto

declare Enumerate.simps [simp del]

text \<open>
  \<^verbatim>\<open>type IntRange<F extends number, T extends number> = Exclude<Enumerate<T>, Enumerate<F>>\<close>
\<close>

definition IntRange :: "nat \<Rightarrow> nat \<Rightarrow> int set option" where
  "IntRange F T =
     (case Enumerate T [] of
        None \<Rightarrow> None
      | Some upto_T \<Rightarrow>
          (case Enumerate F [] of None \<Rightarrow> None | Some upto_F \<Rightarrow> Some (upto_T - upto_F)))"

text \<open>
  The bound of the index of the type helper,
  \<^verbatim>\<open>VI extends IntRange<0, ReturnType<PT['getAllParseFns']>['length']>\<close>
  in \<^verbatim>\<open>SpecificVersion<PT, VI>\<close>, for a parser created with the tuple \<open>vs\<close>.
\<close>

definition SpecificVersion_VI :: "'w ParseFn list \<Rightarrow> int set option" where
  "SpecificVersion_VI vs = IntRange 0 (length vs)"

text \<open>
  The bound of the index of the operation,
  \<^verbatim>\<open>parseSpecific<VN extends number>(versionIndex: VN, input: unknown)\<close>,
  in \<^verbatim>\<open>createVersionedParser\<close> and in the type \<^verbatim>\<open>Parser\<close> alike.
\<close>

definition parseSpecific_VN :: "int set" where
  "parseSpecific_VN = number"

section \<open>Callers\<close>

text \<open>
  What a caller sees when it invokes the routines of a list itself, by plain calls
  one after the other in list order, each in the store the one before left: the
  completion of each and the store after it. This is the reference the scan of \<open>parseAny\<close> is
  compared with.
\<close>

fun direct_calls ::
  "'w ParseFn list \<Rightarrow> jsval \<Rightarrow> 'w store \<Rightarrow> ((jsval + jsval) \<times> 'w store) list" where
  "direct_calls [] input s = []"
| "direct_calls (f # fs) input s =
     (case call f input s of (r, s') \<Rightarrow> (r, s') # direct_calls fs input s')"

text \<open>A use of the parser is a sequence of calls of its four operations.\<close>

datatype operation =
    ParseLatest jsval
  | ParseAny jsval
  | ParseSpecific int jsval
  | GetAllParseFns

fun perform :: "operation \<Rightarrow> 'w store \<Rightarrow> 'w store" where
  "perform (ParseLatest input) s = snd (parseLatest input s)"
| "perform (ParseAny input) s = snd (parseAny input s)"
| "perform (ParseSpecific versionIndex input) s = snd (parseSpecific versionIndex input s)"
| "perform GetAllParseFns s = snd (getAllParseFns s)"

section \<open>Example routines\<close>

text \<open>
  Routines in the manner of the schemas of the README: an object schema accepts an
  object that has all the required keys and returns it stripped of the other keys,
  and throws on anything else, whatever the receiver. Each routine appends its name
  to a log of the calls made, which is the world here.
\<close>

definition object_schema :: "string \<Rightarrow> string list \<Rightarrow> string list ParseFn" where
  "object_schema name keys thisArg input log =
     (case input of
        JObject properties \<Rightarrow>
          if list_all (\<lambda>k. k \<in> set (map fst properties)) keys
          then (Inr (JObject (filter (\<lambda>p. fst p \<in> set keys) properties)), log @ [name])
          else (Inl (JError ''ZodError'' ''Required''), log @ [name])
      | _ \<Rightarrow> (Inl (JError ''ZodError'' ''Expected object''), log @ [name]))"

definition schemaV3 :: "string list ParseFn" where
  "schemaV3 = object_schema ''V3'' [''a'', ''b'', ''c'']"

definition schemaV2 :: "string list ParseFn" where
  "schemaV2 = object_schema ''V2'' [''a'', ''b'']"

definition schemaV1 :: "string list ParseFn" where
  "schemaV1 = object_schema ''V1'' [''a'']"

text \<open>A routine that accepts everything and returns \<^verbatim>\<open>undefined\<close>.\<close>

definition returns_undefined :: "string list ParseFn" where
  "returns_undefined thisArg input log = (Inr JUndefined, log @ [''returns_undefined''])"

text \<open>A routine with a programming error: it throws a \<^verbatim>\<open>RangeError\<close> on every input.\<close>

definition broken :: "string list ParseFn" where
  "broken thisArg input log =
     (Inl (JError ''RangeError'' ''Maximum call stack size exceeded''), log @ [''broken''])"

text \<open>
  A parser of three versions, newest first, with an empty log; an input that the two
  older versions accept and the newest does not, and one that only the oldest accepts.
\<close>

definition three_versions :: "string list store" where
  "three_versions = createVersionedParser [schemaV3, schemaV2, schemaV1] []"

definition input_ab :: jsval where
  "input_ab = JObject [(''a'', JStr ''1''), (''b'', JStr ''2'')]"

definition input_a :: jsval where
  "input_a = JObject [(''a'', JStr ''1'')]"

text \<open>
  A parser whose newest version is broken and whose second version accepts everything,
  and a parser with no version at all.
\<close>

definition lenient_versions :: "string list store" where
  "lenient_versions = createVersionedParser [broken, returns_undefined, schemaV1] []"

definition no_versions :: "string list store" where
  "no_versions = createVersionedParser [] []"

text \<open>Two routines that keep no state, and a parser made of them.\<close>

definition reject_all :: "unit ParseFn" where
  "reject_all thisArg input w = (Inl (JError ''ZodError'' ''Invalid input''), w)"

definition accept_all :: "unit ParseFn" where
  "accept_all thisArg input w = (Inr input, w)"

definition stateless_versions :: "unit store" where
  "stateless_versions = createVersionedParser [reject_all, accept_all] ()"

text \<open>
  A routine that looks at its receiver,
  \<^verbatim>\<open>function (input) { return this === versions ? "called on the versions" : "called on something else" }\<close>,
  and a parser with this one version.
\<close>

definition reports_receiver :: "string list ParseFn" where
  "reports_receiver thisArg input log =
     (Inr (JStr (case thisArg of
                   Versions_array \<Rightarrow> ''called on the versions''
                 | _ \<Rightarrow> ''called on something else'')),
      log @ [''reports_receiver''])"

definition receiver_sensitive :: "string list store" where
  "receiver_sensitive = createVersionedParser [reports_receiver] []"

lemmas example_defs =
  three_versions_def lenient_versions_def no_versions_def stateless_versions_def
  receiver_sensitive_def input_ab_def input_a_def createVersionedParser_def
  call_def call_as_def
  schemaV3_def schemaV2_def schemaV1_def object_schema_def returns_undefined_def broken_def
  reject_all_def accept_all_def reports_receiver_def

section \<open>Calls and the scan\<close>

lemma call_as_versions:
  "call_as thisArg f input s = (r, s') \<Longrightarrow> versions s' = versions s"
  by (auto simp: call_as_def split: prod.splits)

lemma call_versions: "call f input s = (r, s') \<Longrightarrow> versions s' = versions s"
  by (auto simp: call_def dest: call_as_versions)

lemma call_element_versions:
  "call_element callee g input s = (r, s') \<Longrightarrow> versions s' = versions s"
  by (cases g) (auto simp: call_element_def dest: call_as_versions)

text \<open>For a routine that does not look at its receiver, every way of calling it is the same.\<close>

lemma call_as_any:
  assumes "\<forall>thisArg. f thisArg = f No_receiver"
  shows "call_as thisArg f input s = call f input s"
proof -
  from assms have "f thisArg = f No_receiver" by (rule spec)
  then show ?thesis by (simp add: call_def call_as_def)
qed

lemma length_direct_calls: "length (direct_calls vs input s) = length vs"
  by (induction vs arbitrary: s) (auto split: prod.splits)

lemma scan_versions_versions:
  "scan_versions vs input s = (r, s') \<Longrightarrow> versions s' = versions s"
proof (induction vs arbitrary: s)
  case Nil
  then show ?case by simp
next
  case (Cons f fs)
  obtain c t where c: "call f input s = (c, t)" by (cases "call f input s")
  then have t: "versions t = versions s" by (rule call_versions)
  show ?case
  proof (cases c)
    case (Inl e)
    with c Cons.prems have "scan_versions fs input t = (r, s')" by simp
    from Cons.IH [OF this] t show ?thesis by simp
  next
    case (Inr parsed)
    with c Cons.prems t show ?thesis by auto
  qed
qed

text \<open>
  A routine that throws, whatever it throws, only moves the scan on to the rest of
  the list; the thrown value is dropped.
\<close>

lemma scan_versions_throw:
  "call version input s = (Inl e, s') \<Longrightarrow>
   scan_versions (version # rest) input s = scan_versions rest input s'"
  by simp


text \<open>
  When some routine accepts, the scan ends at the first one that does, with its value
  and in the store it left.
\<close>

lemma scan_versions_first:
  "\<exists>j<length vs. \<not> isl (fst (direct_calls vs input s ! j)) \<Longrightarrow>
   \<exists>k<length vs. \<not> isl (fst (direct_calls vs input s ! k)) \<and>
     (\<forall>i<k. isl (fst (direct_calls vs input s ! i))) \<and>
     scan_versions vs input s =
       (Some (projr (fst (direct_calls vs input s ! k))), snd (direct_calls vs input s ! k))"
proof (induction vs arbitrary: s)
  case Nil
  then show ?case by simp
next
  case (Cons f fs)
  let ?dc = "direct_calls (f # fs) input s"
  obtain r s' where c: "call f input s = (r, s')" by (cases "call f input s")
  show ?case
  proof (cases r)
    case (Inr parsed)
    with c have "\<not> isl (fst (?dc ! 0)) \<and> (\<forall>i<0. isl (fst (?dc ! i))) \<and>
      scan_versions (f # fs) input s = (Some (projr (fst (?dc ! 0))), snd (?dc ! 0))"
      by simp
    then show ?thesis by blast
  next
    case (Inl e)
    from Cons.prems obtain j where j: "j < length (f # fs)" "\<not> isl (fst (?dc ! j))"
      by blast
    with c Inl obtain j' where "j = Suc j'" by (cases j) auto
    with j c have "\<exists>j<length fs. \<not> isl (fst (direct_calls fs input s' ! j))" by auto
    from Cons.IH [OF this] obtain k where k: "k < length fs"
      "\<not> isl (fst (direct_calls fs input s' ! k))"
      "\<forall>i<k. isl (fst (direct_calls fs input s' ! i))"
      "scan_versions fs input s' =
        (Some (projr (fst (direct_calls fs input s' ! k))), snd (direct_calls fs input s' ! k))"
      by blast
    have "\<forall>i<Suc k. isl (fst (?dc ! i))"
    proof (intro allI impI)
      fix i assume "i < Suc k"
      then show "isl (fst (?dc ! i))"
        using c Inl k(3) by (cases i) auto
    qed
    with k c Inl have "Suc k < length (f # fs) \<and> \<not> isl (fst (?dc ! Suc k)) \<and>
      (\<forall>i<Suc k. isl (fst (?dc ! i))) \<and>
      scan_versions (f # fs) input s = (Some (projr (fst (?dc ! Suc k))), snd (?dc ! Suc k))"
      by simp
    then show ?thesis by blast
  qed
qed

text \<open>
  When every routine throws, the scan runs to the end of the list, in the store the
  last routine left.
\<close>

lemma scan_versions_all_rejected:
  "\<forall>c \<in> set (direct_calls vs input s). isl (fst c) \<Longrightarrow>
   scan_versions vs input s = (None, last (s # map snd (direct_calls vs input s)))"
proof (induction vs arbitrary: s)
  case Nil
  then show ?case by simp
next
  case (Cons f fs)
  obtain c t where c: "call f input s = (c, t)" by (cases "call f input s")
  with Cons.prems have "isl c" and rest: "\<forall>c \<in> set (direct_calls fs input t). isl (fst c)"
    by simp_all
  then obtain e where e: "c = Inl e" by (cases c) simp_all
  from Cons.IH [OF rest] c e show ?case by simp
qed

text \<open>With routines that leave the world as it is, so does the scan.\<close>

lemma call_as_stateless:
  "\<forall>thisArg x w. snd (f thisArg x w) = w \<Longrightarrow> snd (call_as r f input s) = s"
  by (simp add: call_as_def split_beta)

lemma call_stateless:
  "\<forall>thisArg x w. snd (f thisArg x w) = w \<Longrightarrow> snd (call f input s) = s"
  by (simp add: call_def call_as_stateless)

lemma call_element_stateless:
  assumes "\<forall>f \<in> set vs. \<forall>thisArg x w. snd (f thisArg x w) = w"
  shows "snd (call_element callee (element vs i) input s) = s"
proof (cases "0 \<le> i \<and> i < int (length vs)")
  case True
  then have "nat i < length vs" by linarith
  then have "vs ! nat i \<in> set vs" by (rule nth_mem)
  with assms have "\<forall>thisArg x w. snd ((vs ! nat i) thisArg x w) = w" by blast
  then have "snd (call_as Versions_array (vs ! nat i) input s) = s"
    by (rule call_as_stateless)
  with True show ?thesis by (simp add: element_def call_element_def)
next
  case False
  then have "element vs i = None" by (auto simp: element_def)
  then show ?thesis by (simp add: call_element_def)
qed

lemma scan_versions_stateless:
  "\<forall>f \<in> set vs. \<forall>thisArg x w. snd (f thisArg x w) = w \<Longrightarrow>
   snd (scan_versions vs input s) = s"
proof (induction vs arbitrary: s)
  case Nil
  then show ?case by simp
next
  case (Cons f fs)
  then have "snd (call f input s) = s" by (simp add: call_stateless)
  then obtain c where c: "call f input s = (c, s)" by (cases "call f input s") simp
  from Cons show ?case using c by (cases c) simp_all
qed

section \<open>What \<open>parseAny\<close> throws\<close>

text \<open>
  Whatever \<open>parseAny\<close> throws is thrown by the statement after the loop, never by a
  routine: nothing a routine throws gets out.
\<close>

lemma parseAny_throws_own:
  "parseAny input s = (Inl e, s') \<Longrightarrow> e = no_version_matched input"
  by (auto simp: parseAny_def split: prod.splits option.splits)

text \<open>
  For an input that converts to a string, the statement after the loop throws the
  error with the message that no version matched, followed by that string.
\<close>

lemma no_version_matched_Error:
  "ToString input = Inr str \<Longrightarrow>
   no_version_matched input =
     JError ''Error'' (''Failed to parse metadata (no version matched): '' @ str)"
  by (simp add: no_version_matched_def)

text \<open>
  When every routine throws, \<open>parseAny\<close> throws what the statement after the loop
  throws, in the store the last routine left; what the routines threw is gone.
\<close>

lemma parseAny_all_rejected:
  "\<forall>c \<in> set (direct_calls (versions s) input s). isl (fst c) \<Longrightarrow>
   parseAny input s =
     (Inl (no_version_matched input), last (s # map snd (direct_calls (versions s) input s)))"
  by (simp add: parseAny_def scan_versions_all_rejected)

lemma parseAny_no_versions:
  "versions s = [] \<Longrightarrow> parseAny input s = (Inl (no_version_matched input), s)"
  by (simp add: parseAny_def)

section \<open>The operations\<close>

text \<open>
  C1. If at least one routine of the list accepts the input, \<open>parseAny\<close> returns what
  the first routine that accepts it returns: there is an index \<open>k\<close> whose routine
  accepts, every routine before it throws, and the completion of \<open>parseAny\<close> and the
  store after it are those of the call of routine \<open>k\<close>. The routines are called from
  index 0 upward, each in the store the one before left, and none after \<open>k\<close> is called,
  whether it would accept the input or not.
\<close>

theorem parseAny_first_accepting:
  assumes "\<exists>j<length (versions s). \<not> isl (fst (direct_calls (versions s) input s ! j))"
  shows "\<exists>k<length (versions s).
     \<not> isl (fst (direct_calls (versions s) input s ! k)) \<and>
     (\<forall>i<k. isl (fst (direct_calls (versions s) input s ! i))) \<and>
     parseAny input s = direct_calls (versions s) input s ! k"
proof -
  let ?dc = "direct_calls (versions s) input s"
  from scan_versions_first [OF assms] obtain k where k: "k < length (versions s)"
    "\<not> isl (fst (?dc ! k))" "\<forall>i<k. isl (fst (?dc ! i))"
    "scan_versions (versions s) input s = (Some (projr (fst (?dc ! k))), snd (?dc ! k))"
    by blast
  from k(2) have "Inr (projr (fst (?dc ! k))) = fst (?dc ! k)" by simp
  with k(4) have "parseAny input s = ?dc ! k" by (simp add: parseAny_def)
  with k(1-3) show ?thesis by blast
qed

text \<open>
  On the input with the keys \<open>a\<close> and \<open>b\<close>, V3 throws and both V2 and V1 accept:
  \<open>parseAny\<close> returns the value of V2, and the log shows that V1 was not called.
\<close>

theorem parseAny_first_accepting_witness:
  "(\<exists>j<length (versions three_versions).
      \<not> isl (fst (direct_calls (versions three_versions) input_ab three_versions ! j))) \<and>
   (\<exists>k<length (versions three_versions).
      \<not> isl (fst (direct_calls (versions three_versions) input_ab three_versions ! k)) \<and>
      (\<forall>i<k. isl (fst (direct_calls (versions three_versions) input_ab three_versions ! i))) \<and>
      parseAny input_ab three_versions =
        direct_calls (versions three_versions) input_ab three_versions ! k) \<and>
   map fst (direct_calls (versions three_versions) input_ab three_versions) =
     [Inl (JError ''ZodError'' ''Required''), Inr input_ab, Inr input_a] \<and>
   parseAny input_ab three_versions =
     (Inr input_ab, three_versions\<lparr>world := [''V3'', ''V2'']\<rparr>)"
proof -
  have dc: "map fst (direct_calls (versions three_versions) input_ab three_versions) =
     [Inl (JError ''ZodError'' ''Required''), Inr input_ab, Inr input_a]"
    by (simp add: example_defs)
  have "\<not> isl (fst (direct_calls (versions three_versions) input_ab three_versions ! 1))"
    by (simp add: example_defs)
  moreover have "1 < length (versions three_versions)"
    by (simp add: example_defs)
  ultimately have h: "\<exists>j<length (versions three_versions).
      \<not> isl (fst (direct_calls (versions three_versions) input_ab three_versions ! j))"
    by blast
  note c = parseAny_first_accepting [OF h]
  have e: "parseAny input_ab three_versions =
     (Inr input_ab, three_versions\<lparr>world := [''V3'', ''V2'']\<rparr>)"
    by (simp add: parseAny_def example_defs)
  from h c dc e show ?thesis by (intro conjI)
qed

text \<open>
  C2, at an input the conversion to a string rejects. Each of the three versions
  throws on a symbol, and \<open>parseAny\<close> throws the \<^verbatim>\<open>TypeError\<close> of the template literal:
  not an error saying that no version matched, and with no rendering of the input in
  its message. (For every input that converts to a string, \<open>parseAny_all_rejected\<close>
  and \<open>no_version_matched_Error\<close> give the error the claim describes.)
\<close>

theorem symbol_input_all_rejected:
  "map (isl \<circ> fst) (direct_calls (versions three_versions) (JSymbol ''id'') three_versions) =
     [True, True, True] \<and>
   parseAny (JSymbol ''id'') three_versions =
     (Inl (JError ''TypeError'' ''Cannot convert a Symbol value to a string''),
      three_versions\<lparr>world := [''V3'', ''V2'', ''V1'']\<rparr>)"
  by (simp add: parseAny_def no_version_matched_def example_defs)

text \<open>
  C3. \<open>parseLatest\<close> on a routine that looks at its receiver: called through
  \<open>parseLatest\<close> the routine finds the array of versions in \<^verbatim>\<open>this\<close>, called directly
  it does not, and the two return different values.
\<close>

theorem parseLatest_receiver_counterexample:
  "versions receiver_sensitive \<noteq> [] \<and>
   fst (parseLatest JNull receiver_sensitive) = Inr (JStr ''called on the versions'') \<and>
   fst (call (versions receiver_sensitive ! 0) JNull receiver_sensitive) =
     Inr (JStr ''called on something else'') \<and>
   parseLatest JNull receiver_sensitive \<noteq>
     call (versions receiver_sensitive ! 0) JNull receiver_sensitive"
  by (simp add: parseLatest_def element_def call_element_def example_defs)

text \<open>
  C3, amended. On a parser with at least one version, \<open>parseLatest\<close> is the member
  call \<^verbatim>\<open>versions[0](input)\<close>: the routine at index 0 called on the input with the
  array as receiver, with the same completion, returned or thrown, and the same store
  after it; nothing is caught or wrapped and no other version is called. When that
  routine does not look at its receiver, \<open>parseLatest\<close> is every direct call of it,
  the plain call among them.
\<close>

theorem parseLatest_is_newest:
  assumes "versions s \<noteq> []"
  shows "parseLatest input s = call_as Versions_array (versions s ! 0) input s \<and>
    ((\<forall>thisArg. (versions s ! 0) thisArg = (versions s ! 0) No_receiver) \<longrightarrow>
     parseLatest input s = call (versions s ! 0) input s \<and>
     (\<forall>thisArg. parseLatest input s = call_as thisArg (versions s ! 0) input s))"
proof -
  from assms have e: "element (versions s) 0 = Some (versions s ! 0)"
    by (simp add: element_def)
  then have m: "parseLatest input s = call_as Versions_array (versions s ! 0) input s"
    by (simp add: parseLatest_def call_element_def)
  show ?thesis
  proof (intro conjI impI allI)
    show "parseLatest input s = call_as Versions_array (versions s ! 0) input s"
      by (rule m)
  next
    assume i: "\<forall>thisArg. (versions s ! 0) thisArg = (versions s ! 0) No_receiver"
    then show "parseLatest input s = call (versions s ! 0) input s"
      using m by (simp add: call_as_any)
  next
    fix thisArg
    assume i: "\<forall>thisArg. (versions s ! 0) thisArg = (versions s ! 0) No_receiver"
    then have "call_as thisArg (versions s ! 0) input s =
        call_as Versions_array (versions s ! 0) input s"
      by (simp add: call_as_any)
    with m show "parseLatest input s = call_as thisArg (versions s ! 0) input s"
      by simp
  qed
qed

text \<open>
  On the input with the keys \<open>a\<close> and \<open>b\<close>, \<open>parseLatest\<close> throws what V3 throws,
  although V2 would accept; only V3 is in the log.
\<close>

theorem parseLatest_is_newest_witness:
  "versions three_versions \<noteq> [] \<and>
   (\<forall>thisArg. (versions three_versions ! 0) thisArg =
      (versions three_versions ! 0) No_receiver) \<and>
   parseLatest input_ab three_versions =
     call (versions three_versions ! 0) input_ab three_versions \<and>
   parseLatest input_ab three_versions =
     (Inl (JError ''ZodError'' ''Required''), three_versions\<lparr>world := [''V3'']\<rparr>) \<and>
   fst (call (versions three_versions ! 1) input_ab three_versions) = Inr input_ab"
proof -
  have h: "versions three_versions \<noteq> []"
    by (simp add: example_defs)
  have i: "\<forall>thisArg. (versions three_versions ! 0) thisArg =
      (versions three_versions ! 0) No_receiver"
    by (simp add: example_defs fun_eq_iff)
  from parseLatest_is_newest [OF h, of input_ab] i
  have c: "parseLatest input_ab three_versions =
     call (versions three_versions ! 0) input_ab three_versions"
    by blast
  have "call (versions three_versions ! 0) input_ab three_versions =
     (Inl (JError ''ZodError'' ''Required''), three_versions\<lparr>world := [''V3'']\<rparr>)"
    by (simp add: example_defs)
  with c have r: "parseLatest input_ab three_versions =
     (Inl (JError ''ZodError'' ''Required''), three_versions\<lparr>world := [''V3'']\<rparr>)"
    by simp
  have v2: "fst (call (versions three_versions ! 1) input_ab three_versions) = Inr input_ab"
    by (simp add: example_defs)
  from h i c r v2 show ?thesis by (intro conjI)
qed

text \<open>
  C4. \<open>parseSpecific\<close> on a routine that looks at its receiver: called through
  \<open>parseSpecific 0\<close> the routine finds the array of versions in \<^verbatim>\<open>this\<close>, called
  directly it does not, and the two return different values.
\<close>

theorem parseSpecific_receiver_counterexample:
  "(0::int) < int (length (versions receiver_sensitive)) \<and>
   fst (parseSpecific 0 JNull receiver_sensitive) = Inr (JStr ''called on the versions'') \<and>
   fst (call (versions receiver_sensitive ! nat 0) JNull receiver_sensitive) =
     Inr (JStr ''called on something else'') \<and>
   parseSpecific 0 JNull receiver_sensitive \<noteq>
     call (versions receiver_sensitive ! nat 0) JNull receiver_sensitive"
  by (simp add: parseSpecific_def element_def call_element_def example_defs)

text \<open>
  C4, amended. For an index \<open>i\<close> of the list, \<open>0 \<le> i < length\<close>, \<open>parseSpecific i\<close> is
  the member call \<^verbatim>\<open>versions[i](input)\<close>: the routine at index \<open>i\<close> called on the input
  with the array as receiver, with the same completion, returned or thrown, and the
  same store after it. When that routine does not look at its receiver,
  \<open>parseSpecific i\<close> is every direct call of it, the plain call among them.
\<close>

theorem parseSpecific_is_indexed:
  assumes "0 \<le> i" and "i < int (length (versions s))"
  shows "parseSpecific i input s = call_as Versions_array (versions s ! nat i) input s \<and>
    ((\<forall>thisArg. (versions s ! nat i) thisArg = (versions s ! nat i) No_receiver) \<longrightarrow>
     parseSpecific i input s = call (versions s ! nat i) input s \<and>
     (\<forall>thisArg. parseSpecific i input s = call_as thisArg (versions s ! nat i) input s))"
proof -
  from assms have e: "element (versions s) i = Some (versions s ! nat i)"
    by (simp add: element_def)
  then have m: "parseSpecific i input s = call_as Versions_array (versions s ! nat i) input s"
    by (simp add: parseSpecific_def call_element_def)
  show ?thesis
  proof (intro conjI impI allI)
    show "parseSpecific i input s = call_as Versions_array (versions s ! nat i) input s"
      by (rule m)
  next
    assume "\<forall>thisArg. (versions s ! nat i) thisArg = (versions s ! nat i) No_receiver"
    then show "parseSpecific i input s = call (versions s ! nat i) input s"
      using m by (simp add: call_as_any)
  next
    fix thisArg
    assume "\<forall>thisArg. (versions s ! nat i) thisArg = (versions s ! nat i) No_receiver"
    then have "call_as thisArg (versions s ! nat i) input s =
        call_as Versions_array (versions s ! nat i) input s"
      by (simp add: call_as_any)
    with m show "parseSpecific i input s = call_as thisArg (versions s ! nat i) input s"
      by simp
  qed
qed

text \<open>
  On the input with the key \<open>a\<close> alone, \<open>parseSpecific 2\<close> returns the value of V1 and
  \<open>parseSpecific 1\<close> throws what V2 throws; one routine is in the log each time.
\<close>

theorem parseSpecific_is_indexed_witness:
  "(0::int) \<le> 2 \<and> 2 < int (length (versions three_versions)) \<and>
   (\<forall>thisArg. (versions three_versions ! nat 2) thisArg =
      (versions three_versions ! nat 2) No_receiver) \<and>
   parseSpecific 2 input_a three_versions =
     call (versions three_versions ! nat 2) input_a three_versions \<and>
   parseSpecific 2 input_a three_versions =
     (Inr input_a, three_versions\<lparr>world := [''V1'']\<rparr>) \<and>
   parseSpecific 1 input_a three_versions =
     (Inl (JError ''ZodError'' ''Required''), three_versions\<lparr>world := [''V2'']\<rparr>)"
proof -
  have h1: "(0::int) \<le> 2" by simp
  have h2: "2 < int (length (versions three_versions))"
    by (simp add: example_defs)
  have i: "\<forall>thisArg. (versions three_versions ! nat 2) thisArg =
      (versions three_versions ! nat 2) No_receiver"
    by (simp add: example_defs fun_eq_iff eval_nat_numeral)
  from parseSpecific_is_indexed [OF h1 h2, of input_a] i
  have c: "parseSpecific 2 input_a three_versions =
     call (versions three_versions ! nat 2) input_a three_versions"
    by blast
  have "call (versions three_versions ! nat 2) input_a three_versions =
     (Inr input_a, three_versions\<lparr>world := [''V1'']\<rparr>)"
    by (simp add: example_defs eval_nat_numeral)
  with c have r: "parseSpecific 2 input_a three_versions =
     (Inr input_a, three_versions\<lparr>world := [''V1'']\<rparr>)"
    by simp
  have h3: "(0::int) \<le> 1" by simp
  have h4: "1 < int (length (versions three_versions))"
    by (simp add: example_defs)
  have "call_as Versions_array (versions three_versions ! nat 1) input_a three_versions =
     (Inl (JError ''ZodError'' ''Required''), three_versions\<lparr>world := [''V2'']\<rparr>)"
    by (simp add: example_defs)
  with parseSpecific_is_indexed [OF h3 h4, of input_a]
  have r1: "parseSpecific 1 input_a three_versions =
     (Inl (JError ''ZodError'' ''Required''), three_versions\<lparr>world := [''V2'']\<rparr>)"
    by simp
  from h1 h2 i c r r1 show ?thesis by (intro conjI)
qed

section \<open>The index of \<open>parseSpecific\<close>\<close>

text \<open>\<open>Enumerate<N>\<close> is the union of the literals below \<open>N\<close>.\<close>

lemma Enumerate_from:
  "length Acc \<le> N \<Longrightarrow>
   Enumerate N Acc = Some (set Acc \<union> {int (length Acc)..<int N})"
proof (induction N Acc rule: Enumerate.induct)
  case (1 N Acc)
  show ?case
  proof (cases "length Acc = N")
    case True
    then show ?thesis by (simp add: Enumerate.simps [of N Acc])
  next
    case False
    with "1.prems" have lt: "length Acc < N" by simp
    then have "Enumerate N (Acc @ [int (length Acc)]) =
        Some (set (Acc @ [int (length Acc)]) \<union> {int (length (Acc @ [int (length Acc)]))..<int N})"
      using False by (intro "1.IH") simp_all
    moreover have "set (Acc @ [int (length Acc)]) \<union>
        {int (length (Acc @ [int (length Acc)]))..<int N} =
        set Acc \<union> {int (length Acc)..<int N}"
      using lt by auto
    ultimately show ?thesis
      using False lt by (simp add: Enumerate.simps [of N Acc])
  qed
qed

lemma IntRange_indices: "IntRange 0 n = Some {i. 0 \<le> i \<and> i < int n}"
proof -
  have "Enumerate n [] = Some {0..<int n}"
    using Enumerate_from [of "[]" n] by simp
  moreover have "Enumerate 0 [] = Some {}"
    using Enumerate_from [of "[]" 0] by simp
  ultimately show ?thesis by (auto simp: IntRange_def)
qed

text \<open>
  C5. An index that the type of \<open>parseSpecific\<close> admits and that is not an index of
  the list: with three versions, \<^verbatim>\<open>parseSpecific(3, input)\<close> satisfies
  \<^verbatim>\<open>VN extends number\<close>, while 3 is outside the range that \<^verbatim>\<open>SpecificVersion\<close> asks of
  its own index; when the call runs, a \<^verbatim>\<open>TypeError\<close> is thrown. The validity of the
  index is not enforced when the program is compiled.
\<close>

theorem parseSpecific_index_counterexample:
  "(3::int) \<in> parseSpecific_VN \<and>
   SpecificVersion_VI (versions three_versions) = Some {0, 1, 2} \<and>
   \<not> (3::int) < int (length (versions three_versions)) \<and>
   parseSpecific 3 input_a three_versions =
     (Inl (JError ''TypeError'' ''versions[versionIndex] is not a function''), three_versions)"
proof -
  have l: "length (versions three_versions) = 3"
    by (simp add: example_defs)
  have a: "(3::int) \<in> parseSpecific_VN"
    by (simp add: parseSpecific_VN_def number_def)
  have "{i::int. 0 \<le> i \<and> i < 3} = {0, 1, 2}" by auto
  then have b: "SpecificVersion_VI (versions three_versions) = Some {0, 1, 2}"
    by (simp add: SpecificVersion_VI_def IntRange_indices l)
  have c: "\<not> (3::int) < int (length (versions three_versions))"
    by (simp add: l)
  have d: "parseSpecific 3 input_a three_versions =
     (Inl (JError ''TypeError'' ''versions[versionIndex] is not a function''), three_versions)"
    by (simp add: parseSpecific_def element_def call_element_def not_a_function_def l)
  from a b c d show ?thesis by (intro conjI)
qed

text \<open>
  C5, amended. \<open>parseSpecific\<close> has no bounds check of its own. For an index of the
  list the read yields a routine and the member call goes ahead; for any other index
  the read yields \<^verbatim>\<open>undefined\<close>, and what happens is what the language does on calling
  it: a \<^verbatim>\<open>TypeError\<close> is thrown, no routine is called and the store is as before; no
  failure particular to a bad index exists. Nor is the index checked when the program
  is compiled: the type of the index of \<open>parseSpecific\<close> is bounded by \<^verbatim>\<open>number\<close>,
  which every index satisfies. The range of the indices of the list, \<open>0 \<le> i < length\<close>,
  bounds the index of the type helper \<^verbatim>\<open>SpecificVersion\<close> only.
\<close>

theorem parseSpecific_no_bounds_check:
  "parseSpecific versionIndex input s =
     (if 0 \<le> versionIndex \<and> versionIndex < int (length (versions s))
      then call_as Versions_array (versions s ! nat versionIndex) input s
      else (Inl (not_a_function ''versions[versionIndex]''), s)) \<and>
   versionIndex \<in> parseSpecific_VN \<and>
   SpecificVersion_VI (versions s) = Some {i. 0 \<le> i \<and> i < int (length (versions s))}"
  by (simp add: parseSpecific_def element_def call_element_def
      parseSpecific_VN_def number_def SpecificVersion_VI_def IntRange_indices)

text \<open>
  With three versions: at index 1 the routine V2 is called, and is the only one in the
  log; at the indices 3 and -1 the \<^verbatim>\<open>TypeError\<close> is thrown and the log stays empty.
\<close>

theorem parseSpecific_no_bounds_check_witness:
  "parseSpecific 1 input_ab three_versions =
     (Inr input_ab, three_versions\<lparr>world := [''V2'']\<rparr>) \<and>
   parseSpecific 3 input_a three_versions =
     (Inl (JError ''TypeError'' ''versions[versionIndex] is not a function''), three_versions) \<and>
   parseSpecific (- 1) input_a three_versions =
     (Inl (JError ''TypeError'' ''versions[versionIndex] is not a function''), three_versions) \<and>
   world three_versions = [] \<and>
   (- 1::int) \<in> parseSpecific_VN"
proof -
  have l: "length (versions three_versions) = 3"
    by (simp add: example_defs)
  have "call_as Versions_array (versions three_versions ! nat 1) input_ab three_versions =
     (Inr input_ab, three_versions\<lparr>world := [''V2'']\<rparr>)"
    by (simp add: example_defs)
  with parseSpecific_no_bounds_check [of 1 input_ab three_versions]
  have i: "parseSpecific 1 input_ab three_versions =
     (Inr input_ab, three_versions\<lparr>world := [''V2'']\<rparr>)"
    by (simp add: l)
  have a: "parseSpecific 3 input_a three_versions =
     (Inl (JError ''TypeError'' ''versions[versionIndex] is not a function''), three_versions)"
    using parseSpecific_no_bounds_check [of 3 input_a three_versions]
    by (simp add: l not_a_function_def)
  have b: "parseSpecific (- 1) input_a three_versions =
     (Inl (JError ''TypeError'' ''versions[versionIndex] is not a function''), three_versions)"
    using parseSpecific_no_bounds_check [of "- 1" input_a three_versions]
    by (simp add: not_a_function_def)
  have c: "world three_versions = []"
    by (simp add: example_defs)
  have d: "(- 1::int) \<in> parseSpecific_VN"
    using parseSpecific_no_bounds_check [of "- 1" input_a three_versions] by blast
  from i a b c d show ?thesis by (intro conjI)
qed

text \<open>
  C6, at an input the conversion to a string rejects. With no version the loop body
  does not run and the store is untouched, but on a symbol what \<open>parseAny\<close> throws is
  the \<^verbatim>\<open>TypeError\<close> of the template literal and not the error that no version matched.
  (For every other input, \<open>parseAny_no_versions\<close> and \<open>no_version_matched_Error\<close> give
  the error the claim describes.)
\<close>

theorem symbol_input_no_versions:
  "versions no_versions = [] \<and>
   parseAny (JSymbol ''id'') no_versions =
     (Inl (JError ''TypeError'' ''Cannot convert a Symbol value to a string''), no_versions)"
  by (simp add: parseAny_def no_version_matched_def example_defs)

text \<open>
  C7. \<open>getAllParseFns\<close> on a parser just created returns the list the parser was created
  with, the very list: the same length, the same routines, the same order; and the
  store is left as it was.
\<close>

theorem getAllParseFns_as_supplied:
  "getAllParseFns (createVersionedParser vs w) = (vs, createVersionedParser vs w)"
  by (simp add: getAllParseFns_def createVersionedParser_def)

theorem getAllParseFns_as_supplied_witness:
  "fst (getAllParseFns (createVersionedParser [schemaV3, schemaV2, schemaV1] [])) =
     [schemaV3, schemaV2, schemaV1]"
  using getAllParseFns_as_supplied [of "[schemaV3, schemaV2, schemaV1]" "[]"]
  by simp

text \<open>
  C8. No operation writes to the list of versions: after any sequence of operations
  the list in the store is the one before it, and \<open>getAllParseFns\<close> returns what it would
  have returned before. The parser keeps nothing else: when the routines themselves
  keep no state, the whole store after the sequence is the store before it, so no
  operation has changed what a later one does.
\<close>

theorem versions_immutable:
  "versions (fold perform ops s) = versions s \<and>
   fst (getAllParseFns (fold perform ops s)) = fst (getAllParseFns s) \<and>
   ((\<forall>f \<in> set (versions s). \<forall>thisArg x w. snd (f thisArg x w) = w) \<longrightarrow> fold perform ops s = s)"
proof -
  have step: "versions (perform op t) = versions t" for op and t :: "'a store"
  proof (cases op)
    case (ParseLatest x)
    then show ?thesis
      using call_element_versions [of _ "element (versions t) 0" x t]
      by (cases "parseLatest x t") (simp add: parseLatest_def)
  next
    case (ParseAny x)
    obtain r t' where r: "scan_versions (versions t) x t = (r, t')"
      by (cases "scan_versions (versions t) x t")
    from scan_versions_versions [OF r] r ParseAny show ?thesis
      by (cases r) (simp_all add: parseAny_def)
  next
    case (ParseSpecific i x)
    then show ?thesis
      using call_element_versions [of _ "element (versions t) i" x t]
      by (cases "parseSpecific i x t") (simp add: parseSpecific_def)
  next
    case GetAllParseFns
    then show ?thesis by (simp add: getAllParseFns_def)
  qed
  have a: "versions (fold perform ops s) = versions s"
    by (induction ops arbitrary: s) (simp_all add: step)
  have stateless: "perform op t = t"
    if "\<forall>f \<in> set (versions t). \<forall>thisArg x w. snd (f thisArg x w) = w" for op and t :: "'a store"
  proof (cases op)
    case (ParseLatest x)
    with that show ?thesis
      by (simp add: parseLatest_def call_element_stateless)
  next
    case (ParseAny x)
    from that have "snd (scan_versions (versions t) x t) = t"
      by (rule scan_versions_stateless)
    with ParseAny show ?thesis
      by (auto simp: parseAny_def split: prod.splits option.splits)
  next
    case (ParseSpecific i x)
    with that show ?thesis
      by (simp add: parseSpecific_def call_element_stateless)
  next
    case GetAllParseFns
    then show ?thesis by (simp add: getAllParseFns_def)
  qed
  have c: "(\<forall>f \<in> set (versions s). \<forall>thisArg x w. snd (f thisArg x w) = w) \<longrightarrow> fold perform ops s = s"
    by (induction ops arbitrary: s) (simp_all add: stateless)
  from a c show ?thesis by (simp add: getAllParseFns_def)
qed

text \<open>
  A sequence of all four operations, on the three versions that log their calls and
  on the two that keep no state.
\<close>

theorem versions_immutable_witness:
  "versions (fold perform
      [ParseAny input_ab, ParseLatest input_a, ParseSpecific 5 JNull, GetAllParseFns,
       ParseAny (JSymbol ''id'')] three_versions) = [schemaV3, schemaV2, schemaV1] \<and>
   list_all (\<lambda>f. \<forall>thisArg x w. snd (f thisArg x w) = w) (versions stateless_versions) \<and>
   fold perform
      [ParseAny input_ab, ParseLatest input_a, ParseSpecific 1 JNull, GetAllParseFns]
      stateless_versions = stateless_versions"
proof -
  have a: "versions (fold perform
      [ParseAny input_ab, ParseLatest input_a, ParseSpecific 5 JNull, GetAllParseFns,
       ParseAny (JSymbol ''id'')] three_versions) = [schemaV3, schemaV2, schemaV1]"
    using versions_immutable [of "[ParseAny input_ab, ParseLatest input_a,
      ParseSpecific 5 JNull, GetAllParseFns, ParseAny (JSymbol ''id'')]" three_versions]
    by (simp add: three_versions_def createVersionedParser_def)
  have h: "list_all (\<lambda>f. \<forall>thisArg x w. snd (f thisArg x w) = w) (versions stateless_versions)"
    by (simp add: example_defs)
  have c: "fold perform
      [ParseAny input_ab, ParseLatest input_a, ParseSpecific 1 JNull, GetAllParseFns]
      stateless_versions = stateless_versions"
    using versions_immutable [of "[ParseAny input_ab, ParseLatest input_a,
      ParseSpecific 1 JNull, GetAllParseFns]" stateless_versions] h
    by (simp add: list_all_iff)
  from a h c show ?thesis by (intro conjI)
qed

text \<open>
  C9, at an input the conversion to a string rejects. The only version throws a
  \<^verbatim>\<open>RangeError\<close>, which is caught and dropped like any other thrown value; but on a
  symbol what \<open>parseAny\<close> then throws is the \<^verbatim>\<open>TypeError\<close> of the template literal, so
  a failure other than the one saying that no version matched leaves \<open>parseAny\<close>.
  (That every thrown value moves the scan on is \<open>scan_versions_throw\<close>, and that
  nothing a routine throws leaves \<open>parseAny\<close> is \<open>parseAny_throws_own\<close>.)
\<close>

theorem symbol_input_broken_version:
  "call broken (JSymbol ''id'') (createVersionedParser [broken] []) =
     (Inl (JError ''RangeError'' ''Maximum call stack size exceeded''),
      \<lparr>versions = [broken], world = [''broken'']\<rparr>) \<and>
   parseAny (JSymbol ''id'') (createVersionedParser [broken] []) =
     (Inl (JError ''TypeError'' ''Cannot convert a Symbol value to a string''),
      \<lparr>versions = [broken], world = [''broken'']\<rparr>)"
  by (simp add: parseAny_def no_version_matched_def example_defs)



end
